theory Spec2Isabelle
  imports Main "HOL-Library.Option_ord" "HOL-Library.Multiset"
begin

section \<open>Process environment and pool configuration\<close>

text \<open>
  \<^verbatim>\<open>process.env\<close> is a partial map from variable names to strings; an unset variable
  reads as \<^verbatim>\<open>undefined\<close> (\<open>None\<close>).
\<close>

type_synonym process_env = "string \<rightharpoonup> string"

text \<open>
  The \<^verbatim>\<open>ssl\<close> option handed to \<^verbatim>\<open>new Pool\<close>: either the value \<^verbatim>\<open>false\<close> (no TLS at
  all) or an options object whose only field is \<^verbatim>\<open>rejectUnauthorized\<close>.
\<close>

datatype ssl_option = SslFalse | SslObject (rejectUnauthorized: bool)

record pool_config =
  connectionString :: "string option"
  ssl :: ssl_option

text \<open>
  \<^verbatim>\<open>new Pool({ connectionString: process.env.DATABASE_URL,
       ssl: process.env.NODE_ENV === 'production' ? { rejectUnauthorized: false } : false })\<close>
\<close>

definition poolConfig :: "process_env \<Rightarrow> pool_config" where
  "poolConfig penv =
     \<lparr> connectionString = penv ''DATABASE_URL'',
       ssl = (if penv ''NODE_ENV'' = Some ''production''
              then SslObject False else SslFalse) \<rparr>"

text \<open>
  What the \<^verbatim>\<open>ssl\<close> option means to the driver: TLS is used exactly when the option is
  an object, and the server certificate is checked against the trusted authorities
  exactly when that object has \<^verbatim>\<open>rejectUnauthorized\<close> true.
\<close>

fun usesTls :: "ssl_option \<Rightarrow> bool" where
  "usesTls SslFalse = False"
| "usesTls (SslObject _) = True"

fun certificateValidationRequired :: "ssl_option \<Rightarrow> bool" where
  "certificateValidationRequired SslFalse = False"
| "certificateValidationRequired (SslObject r) = r"

text \<open>\<^verbatim>\<open>const PORT = process.env.PORT || 5000\<close>: an unset or empty variable is falsy.\<close>

datatype port = PortFromEnv string | PortDefault nat

definition PORT :: "process_env \<Rightarrow> port" where
  "PORT penv = (case penv ''PORT'' of
                  None \<Rightarrow> PortDefault 5000
                | Some p \<Rightarrow> (if p = [] then PortDefault 5000 else PortFromEnv p))"

section \<open>The relational store\<close>

text \<open>
  A row of \<^verbatim>\<open>tasks\<close>, with the columns of \<^verbatim>\<open>createTablesQuery\<close> (the column \<^verbatim>\<open>id\<close> is
  the field \<open>task_id\<close>). Every column but the
  primary key is stored as a nullable value: what the schema forbids is enforced by the
  insert below, not by the type. A timestamp is a count of microseconds; an element of
  a \<open>string\<close> stands for one character as the store counts them.
\<close>

record task =
  task_id :: int
  title :: "string option"
  description :: "string option"
  completed :: "bool option"
  created_at :: "int option"

text \<open>
  The table together with the sequence that \<^verbatim>\<open>SERIAL\<close> creates for it. The store as a
  whole is \<open>None\<close> while the relation \<^verbatim>\<open>tasks\<close> does not exist.
\<close>

record tasks_table =
  rows :: "task list"
  id_seq :: int

type_synonym store = "tasks_table option"

text \<open>
  What one call of \<^verbatim>\<open>pool.query\<close> meets outside the program: the store's clock, and
  possibly a failure that is not decided by the statement and the table (no
  connection, authentication, timeout, exhausted sequence, ...), given by its message.
\<close>

record query_env =
  now :: int
  fault :: "string option"

text \<open>The statement texts of the program.\<close>

definition createTablesQuery :: string where
  "createTablesQuery =
     ''\<newline>  CREATE TABLE IF NOT EXISTS tasks (\<newline>    id SERIAL PRIMARY KEY,\<newline>    title VARCHAR(255) NOT NULL,\<newline>    description TEXT,\<newline>    completed BOOLEAN DEFAULT FALSE,\<newline>    created_at TIMESTAMP DEFAULT CURRENT_TIMESTAMP\<newline>  );\<newline>''"

definition selectTasksText :: string where
  "selectTasksText = ''SELECT * FROM tasks ORDER BY created_at DESC''"

definition insertTaskText :: string where
  "insertTaskText = ''INSERT INTO tasks (title, description) VALUES ($1, $2) RETURNING *''"

text \<open>
  \<^verbatim>\<open>ORDER BY created_at DESC\<close>: descending, nulls first (the store's default for a
  descending sort). The order among equal keys is not fixed by the store; the model
  keeps them in table order, and no theorem below depends on that choice.
\<close>

definition desc_key :: "task \<Rightarrow> int option" where
  "desc_key r = map_option uminus (created_at r)"

definition order_by_created_at_desc :: "task list \<Rightarrow> task list" where
  "order_by_created_at_desc rs = sort_key desc_key rs"

text \<open>
  Assignment to \<^verbatim>\<open>VARCHAR(255)\<close>: a longer value is an error, unless the characters past
  the limit are all spaces, in which case the value is cut to the limit.
\<close>

definition varchar255 :: "string \<Rightarrow> string + string" where
  "varchar255 s =
     (if length s \<le> 255 then Inr s
      else if \<forall>c \<in> set (drop 255 s). c = CHR '' '' then Inr (take 255 s)
      else Inl ''value too long for type character varying(255)'')"

text \<open>A text value may not contain the character with code zero.\<close>

definition has_nul :: "string option \<Rightarrow> bool" where
  "has_nul v = (case v of None \<Rightarrow> False | Some s \<Rightarrow> CHR 0x00 \<in> set s)"

text \<open>
  \<^verbatim>\<open>INSERT INTO tasks (title, description) VALUES ($1, $2) RETURNING *\<close> on an existing
  table. A title that does not fit \<^verbatim>\<open>VARCHAR(255)\<close> is rejected before the sequence is
  read. After that the columns not named take their defaults: \<^verbatim>\<open>id\<close> the next value of
  the sequence (consumed also when a constraint fails afterwards), \<^verbatim>\<open>completed\<close> false,
  \<^verbatim>\<open>created_at\<close> the store's clock. Then the constraints are checked: \<^verbatim>\<open>NOT NULL\<close> and
  the primary key. The messages are worded as PostgreSQL 13 and later word them.
\<close>

definition insert_task ::
  "int \<Rightarrow> string option \<Rightarrow> string option \<Rightarrow> tasks_table \<Rightarrow> (string + task list) \<times> tasks_table" where
  "insert_task clock t d tab =
     (if has_nul t \<or> has_nul d
      then (Inl ''invalid byte sequence for encoding \"UTF8\": 0x00'', tab)
      else
        case t of
          None \<Rightarrow>
            (Inl ''null value in column \"title\" of relation \"tasks\" violates not-null constraint'',
             tab \<lparr> id_seq := id_seq tab + 1 \<rparr>)
        | Some s \<Rightarrow>
            (case varchar255 s of
               Inl msg \<Rightarrow> (Inl msg, tab)
             | Inr s' \<Rightarrow>
                 let new_id = id_seq tab;
                     tab' = tab \<lparr> id_seq := new_id + 1 \<rparr>
                 in if new_id \<in> set (map task_id (rows tab))
                    then (Inl ''duplicate key value violates unique constraint \"tasks_pkey\"'', tab')
                    else
                      let r = \<lparr> task_id = new_id, title = Some s', description = d,
                                completed = Some False, created_at = Some clock \<rparr>
                      in (Inr [r], tab' \<lparr> rows := rows tab @ [r] \<rparr>)))"

text \<open>
  One statement run against the store, with its bound parameters already converted to
  text or null. The result is the error message or \<^verbatim>\<open>result.rows\<close>. Only the three
  statements of the program are interpreted.
\<close>

definition run_statement ::
  "query_env \<Rightarrow> string \<Rightarrow> string option list \<Rightarrow> store \<Rightarrow> (string + task list) \<times> store" where
  "run_statement qe text params st =
     (case fault qe of
        Some msg \<Rightarrow> (Inl msg, st)
      | None \<Rightarrow>
          if text = createTablesQuery then
            (case st of
               None \<Rightarrow> (Inr [], Some \<lparr> rows = [], id_seq = 1 \<rparr>)
             | Some tab \<Rightarrow> (Inr [], Some tab))
          else if text = selectTasksText then
            (case st of
               None \<Rightarrow> (Inl ''relation \"tasks\" does not exist'', None)
             | Some tab \<Rightarrow> (Inr (order_by_created_at_desc (rows tab)), Some tab))
          else if text = insertTaskText then
            (case st of
               None \<Rightarrow> (Inl ''relation \"tasks\" does not exist'', None)
             | Some tab \<Rightarrow>
                 (case params of
                    [t, d] \<Rightarrow> (case insert_task (now qe) t d tab of (res, tab') \<Rightarrow> (res, Some tab'))
                  | _ \<Rightarrow> (Inl ''bind message supplies the wrong number of parameters'', Some tab)))
          else (Inl ''statement not interpreted'', st))"

section \<open>The server\<close>

text \<open>
  The values a field of a parsed JSON body holds here: null, a boolean, a number (an
  integer that JavaScript prints in plain decimal) or a string. \<^verbatim>\<open>req.body\<close> is a map
  from property names to such values; reading an absent property gives \<^verbatim>\<open>undefined\<close>
  (\<open>None\<close>).
\<close>

datatype jsval = JNull | JBool bool | JNum int | JStr string

type_synonym request_body = "string \<rightharpoonup> jsval"

function decimal :: "nat \<Rightarrow> string" where
  "decimal n = (if n < 10 then [''0123456789'' ! n]
                else decimal (n div 10) @ [''0123456789'' ! (n mod 10)])"
  by pat_completeness auto
termination
  by (relation "measure (\<lambda>n. n)") auto

declare decimal.simps [simp del]

definition number_toString :: "int \<Rightarrow> string" where
  "number_toString n = (if n < 0 then CHR ''-'' # decimal (nat (- n)) else decimal (nat n))"

text \<open>
  The driver's conversion of a bound parameter: \<^verbatim>\<open>null\<close> and \<^verbatim>\<open>undefined\<close> become the
  store's null, anything else its \<^verbatim>\<open>toString()\<close>.
\<close>

fun prepareValue :: "jsval option \<Rightarrow> string option" where
  "prepareValue None = None"
| "prepareValue (Some JNull) = None"
| "prepareValue (Some (JBool b)) = Some (if b then ''true'' else ''false'')"
| "prepareValue (Some (JNum n)) = Some (number_toString n)"
| "prepareValue (Some (JStr s)) = Some s"

datatype console_line = ConsoleLog string | ConsoleError string string

text \<open>
  The state of the running server: the store behind the pool, every call of
  \<^verbatim>\<open>pool.query\<close> made so far (statement text and bound values, oldest first), the
  console, and the port once \<^verbatim>\<open>app.listen\<close> has been called.
\<close>

record server =
  pool :: pool_config
  db :: store
  queries :: "(string \<times> jsval option list) list"
  console :: "console_line list"
  listening :: "port option"

definition pool_query ::
  "query_env \<Rightarrow> string \<Rightarrow> jsval option list \<Rightarrow> server \<Rightarrow> (string + task list) \<times> server" where
  "pool_query qe text vals s =
     (case run_statement qe text (map prepareValue vals) (db s) of
        (res, st') \<Rightarrow> (res, s \<lparr> db := st', queries := queries s @ [(text, vals)] \<rparr>))"

datatype json_body =
    JsonStatus string
  | JsonTasks "task list"
  | JsonTask task
  | JsonError string
  | JsonUndefined

record response =
  status :: nat
  body :: json_body

definition console_error :: "string \<Rightarrow> string \<Rightarrow> server \<Rightarrow> server" where
  "console_error label msg s = s \<lparr> console := console s @ [ConsoleError label msg] \<rparr>"

definition console_log :: "string \<Rightarrow> server \<Rightarrow> server" where
  "console_log line s = s \<lparr> console := console s @ [ConsoleLog line] \<rparr>"

text \<open>\<^verbatim>\<open>app.get('/health', ...)\<close>\<close>

definition health :: "server \<Rightarrow> response \<times> server" where
  "health s = (\<lparr> status = 200, body = JsonStatus ''Backend is running!'' \<rparr>, s)"

text \<open>\<^verbatim>\<open>app.get('/api/tasks', ...)\<close>\<close>

definition listTasks :: "query_env \<Rightarrow> server \<Rightarrow> response \<times> server" where
  "listTasks qe s =
     (case pool_query qe selectTasksText [] s of
        (Inr result_rows, s') \<Rightarrow> (\<lparr> status = 200, body = JsonTasks result_rows \<rparr>, s')
      | (Inl message, s') \<Rightarrow>
          (\<lparr> status = 500, body = JsonError message \<rparr>,
           console_error ''Database query error:'' message s'))"

text \<open>
  \<^verbatim>\<open>app.post('/api/tasks', ...)\<close>. \<^verbatim>\<open>result.rows[0]\<close> of an empty array is
  \<^verbatim>\<open>undefined\<close>.
\<close>

definition createTask :: "query_env \<Rightarrow> request_body \<Rightarrow> server \<Rightarrow> response \<times> server" where
  "createTask qe req_body s =
     (let title_v = req_body ''title'';
          description_v = req_body ''description''
      in case pool_query qe insertTaskText [title_v, description_v] s of
           (Inr result_rows, s') \<Rightarrow>
             (\<lparr> status = 201,
                body = (case result_rows of [] \<Rightarrow> JsonUndefined | r # _ \<Rightarrow> JsonTask r) \<rparr>, s')
         | (Inl message, s') \<Rightarrow>
             (\<lparr> status = 500, body = JsonError message \<rparr>,
              console_error ''Database insert error:'' message s'))"

subsection \<open>Process start\<close>

text \<open>
  A settled promise. \<^verbatim>\<open>.then(f)\<close> runs \<open>f\<close> on a fulfilled promise and passes a
  rejection on; \<^verbatim>\<open>.catch(g)\<close> runs \<open>g\<close> on a rejection, which handles it. The callbacks
  here only write to the console and return nothing.
\<close>

datatype promise = Fulfilled | Rejected string

fun promise_then :: "(server \<Rightarrow> server) \<Rightarrow> promise \<times> server \<Rightarrow> promise \<times> server" where
  "promise_then f (Fulfilled, s) = (Fulfilled, f s)"
| "promise_then f (Rejected e, s) = (Rejected e, s)"

fun promise_catch :: "(string \<Rightarrow> server \<Rightarrow> server) \<Rightarrow> promise \<times> server \<Rightarrow> promise \<times> server" where
  "promise_catch g (Fulfilled, s) = (Fulfilled, s)"
| "promise_catch g (Rejected e, s) = (Fulfilled, g e s)"

fun port_text :: "port \<Rightarrow> string" where
  "port_text (PortFromEnv p) = p"
| "port_text (PortDefault n) = decimal n"

text \<open>
  What \<^verbatim>\<open>app.listen\<close> meets outside the program: for the port it is given, the error
  with which the runtime or the operating system refuses it (a port out of range or in
  use, no permission), or none.
\<close>

record host =
  listen_error :: "port \<Rightarrow> string option"

text \<open>
  \<^verbatim>\<open>app.listen(PORT, () => console.log(...))\<close>. A refused port is an exception that
  nothing catches; otherwise the server listens and the callback prints its line.
\<close>

definition listen :: "host \<Rightarrow> port \<Rightarrow> server \<Rightarrow> string + server" where
  "listen h p s =
     (case listen_error h p of
        Some e \<Rightarrow> Inl e
      | None \<Rightarrow>
          Inr (console_log (''Backend server is running on port '' @ port_text p)
                 (s \<lparr> listening := Some p \<rparr>)))"

text \<open>
  The module's top level, run once against the store as it is found.
  \<^verbatim>\<open>pool.query(createTablesQuery)\<close> only starts the statement: the statement runs, and
  the callbacks of its promise fire, after the synchronous top level has finished, so
  after \<^verbatim>\<open>app.listen\<close> has been called and the listener's callback has printed its
  line. An uncaught exception of \<^verbatim>\<open>app.listen\<close> ends the process before the statement
  has run; a promise that ends rejected with no handler attached ends it afterwards;
  otherwise the process runs on with the server.
\<close>

datatype exit_cause = UncaughtListenError string | UnhandledRejection string

datatype process = Running server | Terminated exit_cause

definition ensureSchema :: "query_env \<Rightarrow> server \<Rightarrow> promise \<times> server" where
  "ensureSchema qe s =
     (case pool_query qe createTablesQuery [] s of
        (Inr _, s') \<Rightarrow> (Fulfilled, s')
      | (Inl message, s') \<Rightarrow> (Rejected message, s'))"

definition initializeDatabase :: "query_env \<Rightarrow> server \<Rightarrow> promise \<times> server" where
  "initializeDatabase qe s =
     promise_catch (console_error ''Database setup error:'')
       (promise_then (console_log ''Database tables ready'') (ensureSchema qe s))"

definition start :: "process_env \<Rightarrow> host \<Rightarrow> query_env \<Rightarrow> store \<Rightarrow> process" where
  "start penv h qe st =
     (let s0 = \<lparr> pool = poolConfig penv, db = st, queries = [], console = [], listening = None \<rparr>
      in case listen h (PORT penv) s0 of
           Inl e \<Rightarrow> Terminated (UncaughtListenError e)
         | Inr s1 \<Rightarrow>
             (case initializeDatabase qe s1 of
                (Rejected e, _) \<Rightarrow> Terminated (UnhandledRejection e)
              | (Fulfilled, s2) \<Rightarrow> Running s2))"

section \<open>Predicates on stores and requests\<close>

text \<open>
  The sequence is ahead of every stored id. It holds when the table is created and is
  kept by every statement of the program (\<open>seq_ahead_preserved\<close> below), so it holds in
  every store that only this program has written to.
\<close>

definition seq_ahead :: "store \<Rightarrow> bool" where
  "seq_ahead st = (case st of None \<Rightarrow> True
                   | Some tab \<Rightarrow> \<forall>r \<in> set (rows tab). task_id r < id_seq tab)"

text \<open>The invariant of persisted tasks: ids are unique, titles are not null and at most 255 long.\<close>

definition task_invariant :: "store \<Rightarrow> bool" where
  "task_invariant st =
     (case st of None \<Rightarrow> True
      | Some tab \<Rightarrow>
          distinct (map task_id (rows tab)) \<and>
          (\<forall>r \<in> set (rows tab). case title r of None \<Rightarrow> False | Some t \<Rightarrow> length t \<le> 255))"

text \<open>
  A description as the interface describes it: absent, null, or a string (that the
  store can hold, so without the character with code zero).
\<close>

definition validDescription :: "jsval option \<Rightarrow> bool" where
  "validDescription v =
     (case v of None \<Rightarrow> True | Some JNull \<Rightarrow> True | Some (JStr d) \<Rightarrow> CHR 0x00 \<notin> set d
      | _ \<Rightarrow> False)"

subsection \<open>Concrete inputs\<close>

definition example_table :: tasks_table where
  "example_table =
     \<lparr> rows = [\<lparr> task_id = 1, title = Some ''A'', description = None,
                  completed = Some False, created_at = Some 1000 \<rparr>,
               \<lparr> task_id = 2, title = Some ''B'', description = Some ''second'',
                  completed = Some False, created_at = Some 2000 \<rparr>],
       id_seq = 3 \<rparr>"

definition example_server :: "store \<Rightarrow> server" where
  "example_server st =
     \<lparr> pool = poolConfig Map.empty, db = st, queries = [], console = [],
       listening = Some (PortDefault 5000) \<rparr>"

definition at_time :: "int \<Rightarrow> query_env" where
  "at_time c = \<lparr> now = c, fault = None \<rparr>"

definition open_host :: host where
  "open_host = \<lparr> listen_error = (\<lambda>p. None) \<rparr>"

definition failing :: "string \<Rightarrow> query_env" where
  "failing m = \<lparr> now = 0, fault = Some m \<rparr>"

definition example_body :: request_body where
  "example_body = [''title'' \<mapsto> JStr ''Buy milk'', ''description'' \<mapsto> JStr '''']"

text \<open>The same title and description, with fields the server does not read.\<close>

definition crowded_body :: request_body where
  "crowded_body =
     [''title'' \<mapsto> JStr ''Buy milk'', ''description'' \<mapsto> JStr '''', ''id'' \<mapsto> JNum 99,
      ''completed'' \<mapsto> JBool True, ''created_at'' \<mapsto> JStr ''1999-12-31T23:59:59.000Z'']"

definition untitled_body :: request_body where
  "untitled_body = [''description'' \<mapsto> JStr ''no title'']"

definition injection_body :: request_body where
  "injection_body = [''title'' \<mapsto> JStr ''x); DROP TABLE tasks; --'']"

section \<open>Lemmas about the store and the handlers\<close>

lemma statement_texts_distinct:
  "selectTasksText \<noteq> createTablesQuery"
  "insertTaskText \<noteq> createTablesQuery"
  "insertTaskText \<noteq> selectTasksText"
  by (simp_all add: selectTasksText_def createTablesQuery_def insertTaskText_def)

lemma run_statement_fault:
  "fault qe = Some m \<Longrightarrow> run_statement qe text ps st = (Inl m, st)"
  by (simp add: run_statement_def)

lemma run_statement_create:
  "fault qe = None \<Longrightarrow>
   run_statement qe createTablesQuery ps st =
     (Inr [], Some (case st of None \<Rightarrow> \<lparr> rows = [], id_seq = 1 \<rparr> | Some tab \<Rightarrow> tab))"
  by (simp add: run_statement_def split: option.splits)

lemma run_statement_create_fails:
  "fst (run_statement qe createTablesQuery ps st) = Inl m \<Longrightarrow> fault qe = Some m"
  by (cases "fault qe") (simp_all add: run_statement_def split: option.splits)

lemma run_statement_select:
  "fault qe = None \<Longrightarrow>
   run_statement qe selectTasksText ps (Some tab) =
     (Inr (order_by_created_at_desc (rows tab)), Some tab)"
  by (simp add: run_statement_def statement_texts_distinct)

lemma run_statement_insert:
  "fault qe = None \<Longrightarrow>
   run_statement qe insertTaskText [t, d] (Some tab) =
     (fst (insert_task (now qe) t d tab), Some (snd (insert_task (now qe) t d tab)))"
  by (simp add: run_statement_def statement_texts_distinct split: prod.splits)

lemma pool_query_queries:
  "queries (snd (pool_query qe text vals s)) = queries s @ [(text, vals)]"
  by (simp add: pool_query_def split: prod.splits)

lemma pool_query_fst:
  "fst (pool_query qe text vals s) = fst (run_statement qe text (map prepareValue vals) (db s))"
  by (simp add: pool_query_def split: prod.splits)

lemma pool_query_db:
  "db (snd (pool_query qe text vals s)) = snd (run_statement qe text (map prepareValue vals) (db s))"
  by (simp add: pool_query_def split: prod.splits)

lemma listTasks_queries:
  "queries (snd (listTasks qe s)) = queries s @ [(selectTasksText, [])]"
  using pool_query_queries [of qe selectTasksText "[]" s]
  by (cases "pool_query qe selectTasksText [] s")
     (auto simp: listTasks_def console_error_def split: sum.splits)

lemma createTask_queries:
  "queries (snd (createTask qe b s)) = queries s @ [(insertTaskText, [b ''title'', b ''description''])]"
  using pool_query_queries [of qe insertTaskText "[b ''title'', b ''description'']" s]
  by (cases "pool_query qe insertTaskText [b ''title'', b ''description''] s")
     (auto simp: createTask_def console_error_def Let_def split: sum.splits)

lemma listTasks_db:
  "db (snd (listTasks qe s)) = snd (run_statement qe selectTasksText [] (db s))"
  using pool_query_db [of qe selectTasksText "[]" s]
  by (cases "pool_query qe selectTasksText [] s")
     (auto simp: listTasks_def console_error_def split: sum.splits)

lemma createTask_db:
  "db (snd (createTask qe b s)) =
     snd (run_statement qe insertTaskText [prepareValue (b ''title''), prepareValue (b ''description'')] (db s))"
  using pool_query_db [of qe insertTaskText "[b ''title'', b ''description'']" s]
  by (cases "pool_query qe insertTaskText [b ''title'', b ''description''] s")
     (auto simp: createTask_def console_error_def Let_def split: sum.splits)

lemma listTasks_response:
  "fst (listTasks qe s) =
     (case fst (run_statement qe selectTasksText [] (db s)) of
        Inr rs \<Rightarrow> \<lparr> status = 200, body = JsonTasks rs \<rparr>
      | Inl m \<Rightarrow> \<lparr> status = 500, body = JsonError m \<rparr>)"
  using pool_query_fst [of qe selectTasksText "[]" s]
  by (cases "pool_query qe selectTasksText [] s")
     (auto simp: listTasks_def split: sum.splits)

lemma createTask_response:
  "fst (createTask qe b s) =
     (case fst (run_statement qe insertTaskText
                  [prepareValue (b ''title''), prepareValue (b ''description'')] (db s)) of
        Inr rs \<Rightarrow> \<lparr> status = 201, body = (case rs of [] \<Rightarrow> JsonUndefined | r # _ \<Rightarrow> JsonTask r) \<rparr>
      | Inl m \<Rightarrow> \<lparr> status = 500, body = JsonError m \<rparr>)"
  using pool_query_fst [of qe insertTaskText "[b ''title'', b ''description'']" s]
  by (cases "pool_query qe insertTaskText [b ''title'', b ''description''] s")
     (auto simp: createTask_def Let_def split: sum.splits)

(* C4 *)

lemma sorted_order_by: "sorted (map desc_key (order_by_created_at_desc rs))"
  by (simp add: order_by_created_at_desc_def)

lemma mset_order_by: "mset (order_by_created_at_desc rs) = mset rs"
  by (simp add: order_by_created_at_desc_def)

lemma desc_key_less:
  assumes "created_at a = Some t1" and "created_at b = Some t2" and "t1 < t2"
  shows "desc_key b < desc_key a"
  using assms by (simp add: desc_key_def)

lemma newer_first:
  assumes srt: "sorted (map desc_key rs)"
    and i: "i < length rs" and j: "j < length rs"
    and ti: "created_at (rs ! i) = Some t1" and tj: "created_at (rs ! j) = Some t2"
    and lt: "t1 < t2"
  shows "j < i"
proof (rule ccontr)
  assume "\<not> j < i"
  then have "i \<le> j" by simp
  with srt j have "map desc_key rs ! i \<le> map desc_key rs ! j"
    by (simp add: sorted_iff_nth_mono)
  with i j have "desc_key (rs ! i) \<le> desc_key (rs ! j)" by simp
  moreover have "desc_key (rs ! j) < desc_key (rs ! i)"
    using ti tj lt by (rule desc_key_less)
  ultimately show False by simp
qed

(* C2 *)

lemma foldr_insort_key_least:
  assumes "\<forall>y \<in> set xs. f x < f y"
  shows "foldr (insort_key f) xs [x] = x # foldr (insort_key f) xs []"
  using assms
proof (induction xs)
  case Nil
  then show ?case by simp
next
  case (Cons y ys)
  then have "f x < f y" and "foldr (insort_key f) ys [x] = x # foldr (insort_key f) ys []"
    by simp_all
  then show ?case by (simp add: not_le [symmetric])
qed

lemma order_by_newest_appended:
  assumes "\<forall>p \<in> set rs. \<exists>c. created_at p = Some c \<and> c < c'"
    and "created_at r = Some c'"
  shows "order_by_created_at_desc (rs @ [r]) = r # order_by_created_at_desc rs"
proof -
  have "\<forall>p \<in> set rs. desc_key r < desc_key p"
    using assms by (auto simp: desc_key_def)
  then show ?thesis
    by (simp add: order_by_created_at_desc_def sort_key_def foldr_insort_key_least)
qed

lemma insert_task_nul:
  "has_nul t \<or> has_nul d \<Longrightarrow>
   insert_task c t d tab = (Inl ''invalid byte sequence for encoding \"UTF8\": 0x00'', tab)"
  by (simp add: insert_task_def)

lemma insert_task_null_title:
  "\<not> has_nul d \<Longrightarrow>
   insert_task c None d tab =
     (Inl ''null value in column \"title\" of relation \"tasks\" violates not-null constraint'',
      tab \<lparr> id_seq := id_seq tab + 1 \<rparr>)"
  by (simp add: insert_task_def has_nul_def Let_def)

lemma insert_task_too_long:
  "\<not> has_nul (Some s) \<Longrightarrow> \<not> has_nul d \<Longrightarrow> varchar255 s = Inl msg \<Longrightarrow>
   insert_task c (Some s) d tab = (Inl msg, tab)"
  by (simp add: insert_task_def Let_def)

lemma insert_task_duplicate:
  "\<not> has_nul (Some s) \<Longrightarrow> \<not> has_nul d \<Longrightarrow> varchar255 s = Inr s' \<Longrightarrow>
   id_seq tab \<in> task_id ` set (rows tab) \<Longrightarrow>
   insert_task c (Some s) d tab =
     (Inl ''duplicate key value violates unique constraint \"tasks_pkey\"'',
      tab \<lparr> id_seq := id_seq tab + 1 \<rparr>)"
  by (simp add: insert_task_def Let_def)

lemma insert_task_stored:
  "\<not> has_nul (Some s) \<Longrightarrow> \<not> has_nul d \<Longrightarrow> varchar255 s = Inr s' \<Longrightarrow>
   id_seq tab \<notin> task_id ` set (rows tab) \<Longrightarrow>
   insert_task c (Some s) d tab =
     (Inr [\<lparr> task_id = id_seq tab, title = Some s', description = d,
              completed = Some False, created_at = Some c \<rparr>],
      \<lparr> rows = rows tab @ [\<lparr> task_id = id_seq tab, title = Some s', description = d,
                              completed = Some False, created_at = Some c \<rparr>],
        id_seq = id_seq tab + 1 \<rparr>)"
  by (simp add: insert_task_def Let_def)

lemma varchar255_length:
  assumes "varchar255 s = Inr s'"
  shows "length s' \<le> 255"
proof (cases "length s \<le> 255")
  case True
  with assms have "s' = s" by (simp add: varchar255_def)
  with True show ?thesis by simp
next
  case False
  with assms have "s' = take 255 s"
    by (cases "\<forall>c \<in> set (drop 255 s). c = CHR '' ''") (simp_all add: varchar255_def)
  then show ?thesis by simp
qed

lemma varchar255_short: "length s \<le> 255 \<Longrightarrow> varchar255 s = Inr s"
  by (simp add: varchar255_def)

text \<open>Every outcome of an insert, by cases.\<close>

lemma insert_task_outcome:
  obtains
    (rejected) msg where "insert_task c t d tab = (Inl msg, tab)"
  | (consumed) msg where "insert_task c t d tab = (Inl msg, tab \<lparr> id_seq := id_seq tab + 1 \<rparr>)"
  | (stored) s s' where "t = Some s" and "varchar255 s = Inr s'"
      and "id_seq tab \<notin> task_id ` set (rows tab)"
      and "insert_task c t d tab =
             (Inr [\<lparr> task_id = id_seq tab, title = Some s', description = d,
                      completed = Some False, created_at = Some c \<rparr>],
              \<lparr> rows = rows tab @ [\<lparr> task_id = id_seq tab, title = Some s', description = d,
                                      completed = Some False, created_at = Some c \<rparr>],
                id_seq = id_seq tab + 1 \<rparr>)"
proof (cases "has_nul t \<or> has_nul d")
  case True
  then show ?thesis using rejected insert_task_nul by blast
next
  case clean: False
  show ?thesis
  proof (cases t)
    case None
    with clean show ?thesis using consumed insert_task_null_title by blast
  next
    case (Some s)
    show ?thesis
    proof (cases "varchar255 s")
      case (Inl msg)
      with clean Some show ?thesis using rejected insert_task_too_long by blast
    next
      case (Inr s')
      show ?thesis
      proof (cases "id_seq tab \<in> task_id ` set (rows tab)")
        case True
        with clean Some Inr show ?thesis using consumed insert_task_duplicate by blast
      next
        case False
        with clean Some Inr show ?thesis using stored insert_task_stored by blast
      qed
    qed
  qed
qed

lemma run_statement_outcome:
  "snd (run_statement qe stmt ps st) = st
   \<or> (st = None \<and> snd (run_statement qe stmt ps st) = Some \<lparr> rows = [], id_seq = 1 \<rparr>)
   \<or> (\<exists>tab t d. st = Some tab \<and>
         snd (run_statement qe stmt ps st) = Some (snd (insert_task (now qe) t d tab)))"
  by (auto simp: run_statement_def split: option.splits list.splits prod.splits)
     (metis snd_conv)

lemma seq_ahead_fresh:
  "seq_ahead (Some tab) \<Longrightarrow> id_seq tab \<notin> task_id ` set (rows tab)"
  by (auto simp: seq_ahead_def)

lemma seq_ahead_insert_task:
  assumes "seq_ahead (Some tab)"
  shows "seq_ahead (Some (snd (insert_task c t d tab)))"
proof (cases rule: insert_task_outcome [of c t d tab])
  case (rejected msg)
  with assms show ?thesis by simp
next
  case (consumed msg)
  with assms show ?thesis by (auto simp: seq_ahead_def)
next
  case (stored s s')
  with assms show ?thesis by (auto simp: seq_ahead_def)
qed

lemma task_invariant_insert_task:
  assumes "task_invariant (Some tab)"
  shows "task_invariant (Some (snd (insert_task c t d tab)))"
proof (cases rule: insert_task_outcome [of c t d tab])
  case (rejected msg)
  with assms show ?thesis by simp
next
  case (consumed msg)
  with assms show ?thesis by (simp add: task_invariant_def)
next
  case (stored s s')
  from stored(2) have "length s' \<le> 255" by (rule varchar255_length)
  with assms stored(3,4) show ?thesis by (auto simp: task_invariant_def)
qed

lemma seq_ahead_run_statement:
  assumes "seq_ahead st"
  shows "seq_ahead (snd (run_statement qe stmt ps st))"
  using run_statement_outcome [of qe stmt ps st] assms
  by (auto simp: seq_ahead_insert_task) (simp add: seq_ahead_def)

lemma task_invariant_run_statement:
  assumes "task_invariant st"
  shows "task_invariant (snd (run_statement qe stmt ps st))"
  using run_statement_outcome [of qe stmt ps st] assms
  by (auto simp: task_invariant_insert_task) (simp add: task_invariant_def)

lemma initializeDatabase_db:
  "db (snd (initializeDatabase qe s)) = snd (run_statement qe createTablesQuery [] (db s))"
  using pool_query_db [of qe createTablesQuery "[]" s]
  by (cases "pool_query qe createTablesQuery [] s")
     (auto simp: initializeDatabase_def ensureSchema_def console_error_def console_log_def
           split: sum.splits)

text \<open>The sequence stays ahead of every stored id, whatever the server does.\<close>

lemma seq_ahead_preserved:
  assumes "seq_ahead (db s)"
  shows "seq_ahead (db (snd (createTask qe b s)))"
    and "seq_ahead (db (snd (listTasks qe s)))"
    and "seq_ahead (db (snd (initializeDatabase qe s)))"
  using assms
  by (simp_all add: createTask_db listTasks_db initializeDatabase_db seq_ahead_run_statement)

lemma seq_ahead_no_table: "seq_ahead None"
  by (simp add: seq_ahead_def)

lemma prepareValue_valid_description:
  "validDescription v \<Longrightarrow> \<not> has_nul (prepareValue v)"
  by (auto simp: validDescription_def has_nul_def split: option.splits jsval.splits)

(* C3 *)

lemma has_nul_Some: "has_nul (Some t) = (CHR 0x00 \<in> set t)"
  by (simp add: has_nul_def)

lemma createTask_stores:
  assumes tab: "db s = Some tab" and ok: "fault qe = None"
    and t: "b ''title'' = Some (JStr t)" and len: "length t \<le> 255" and nul: "CHR 0x00 \<notin> set t"
    and d: "\<not> has_nul (prepareValue (b ''description''))"
    and inv: "seq_ahead (db s)"
  shows "createTask qe b s =
           (\<lparr> status = 201,
              body = JsonTask \<lparr> task_id = id_seq tab, title = Some t,
                                description = prepareValue (b ''description''),
                                completed = Some False, created_at = Some (now qe) \<rparr> \<rparr>,
            s \<lparr> db := Some \<lparr> rows = rows tab @
                                [\<lparr> task_id = id_seq tab, title = Some t,
                                   description = prepareValue (b ''description''),
                                   completed = Some False, created_at = Some (now qe) \<rparr>],
                              id_seq = id_seq tab + 1 \<rparr>,
                queries := queries s @ [(insertTaskText, [b ''title'', b ''description''])] \<rparr>)"
proof -
  from inv tab have fresh: "id_seq tab \<notin> task_id ` set (rows tab)"
    by (simp add: seq_ahead_fresh)
  from nul have clean: "\<not> has_nul (Some t)"
    by (simp add: has_nul_Some)
  note ins = insert_task_stored [OF clean d varchar255_short [OF len] fresh, of "now qe"]
  show ?thesis
    by (simp add: createTask_def Let_def pool_query_def tab t run_statement_insert [OF ok] ins)
qed

(* C3 *)

lemma run_statement_insert_null:
  "\<exists>m. fst (run_statement qe insertTaskText [None, d] st) = Inl m"
  "map_option rows (snd (run_statement qe insertTaskText [None, d] st)) = map_option rows st"
proof -
  have "(\<exists>m. fst (run_statement qe insertTaskText [None, d] st) = Inl m)
      \<and> map_option rows (snd (run_statement qe insertTaskText [None, d] st)) = map_option rows st"
  proof (cases "fault qe")
    case (Some m)
    then show ?thesis by (simp add: run_statement_fault)
  next
    case None
    show ?thesis
    proof (cases st)
      case no_table: None
      with None show ?thesis by (simp add: run_statement_def statement_texts_distinct)
    next
      case (Some tab)
      show ?thesis
      proof (cases "has_nul d")
        case True
        with None Some show ?thesis by (simp add: run_statement_insert insert_task_nul)
      next
        case False
        with None Some show ?thesis by (simp add: run_statement_insert insert_task_null_title)
      qed
    qed
  qed
  then show "\<exists>m. fst (run_statement qe insertTaskText [None, d] st) = Inl m"
    and "map_option rows (snd (run_statement qe insertTaskText [None, d] st)) = map_option rows st"
    by blast+
qed

(* C7 *)

section \<open>Claims\<close>

subsection \<open>C1: a created task is listed\<close>

text \<open>
  C1. For a title that is a string of at most 255 characters without the character of
  code zero (empty or not) and a valid description, on a store whose table exists, whose
  sequence is ahead of the stored ids and whose two statements meet no outside failure:
  \<open>createTask\<close> answers 201 with a task \<open>r\<close>, and \<open>listTasks\<close> right after it answers 200
  with a list that contains \<open>r\<close> and every task stored before. The title of \<open>r\<close> is the
  input, its description is the input (null for an absent or null description), and
  its id is the id of no task stored before.
\<close>

theorem createTask_then_listTasks:
  assumes tab: "db s = Some tab" and ok1: "fault qe1 = None" and ok2: "fault qe2 = None"
    and t: "b ''title'' = Some (JStr t)"
    and len: "length t \<le> 255" and nul: "CHR 0x00 \<notin> set t"
    and d: "validDescription (b ''description'')"
    and inv: "seq_ahead (db s)"
  shows "\<exists>r rs. fst (createTask qe1 b s) = \<lparr> status = 201, body = JsonTask r \<rparr>
           \<and> fst (listTasks qe2 (snd (createTask qe1 b s))) = \<lparr> status = 200, body = JsonTasks rs \<rparr>
           \<and> r \<in> set rs
           \<and> title r = Some t
           \<and> description r = prepareValue (b ''description'')
           \<and> task_id r \<notin> task_id ` set (rows tab)
           \<and> set (rows tab) \<subseteq> set rs"
proof -
  let ?r = "\<lparr> task_id = id_seq tab, title = Some t,
              description = prepareValue (b ''description''),
              completed = Some False, created_at = Some (now qe1) \<rparr>"
  let ?rs = "order_by_created_at_desc (rows tab @ [?r])"
  from d have d': "\<not> has_nul (prepareValue (b ''description''))"
    by (rule prepareValue_valid_description)
  note created = createTask_stores [OF tab ok1 t len nul d' inv]
  from inv tab have fresh: "task_id ?r \<notin> task_id ` set (rows tab)"
    using seq_ahead_fresh by simp
  have listed: "fst (listTasks qe2 (snd (createTask qe1 b s))) = \<lparr> status = 200, body = JsonTasks ?rs \<rparr>"
    by (simp add: created listTasks_response run_statement_select [OF ok2])
  have "mset ?rs = mset (rows tab @ [?r])" by (rule mset_order_by)
  then have "set ?rs = set (rows tab @ [?r])" by (rule mset_eq_setD)
  then have mem: "?r \<in> set ?rs" and old: "set (rows tab) \<subseteq> set ?rs" by auto
  from created have "fst (createTask qe1 b s) = \<lparr> status = 201, body = JsonTask ?r \<rparr>" by simp
  with listed mem old fresh show ?thesis
    by (intro exI [of _ ?r] exI [of _ ?rs]) simp
qed

theorem createTask_then_listTasks_witness:
  "db (example_server (Some example_table)) = Some example_table
   \<and> fault (at_time 3000) = None \<and> fault (at_time 4000) = None
   \<and> example_body ''title'' = Some (JStr ''Buy milk'')
   \<and> length ''Buy milk'' \<le> 255 \<and> CHR 0x00 \<notin> set ''Buy milk''
   \<and> validDescription (example_body ''description'')
   \<and> seq_ahead (db (example_server (Some example_table)))
   \<and> (\<exists>r rs. fst (createTask (at_time 3000) example_body (example_server (Some example_table)))
                 = \<lparr> status = 201, body = JsonTask r \<rparr>
           \<and> fst (listTasks (at_time 4000)
                    (snd (createTask (at_time 3000) example_body (example_server (Some example_table)))))
                 = \<lparr> status = 200, body = JsonTasks rs \<rparr>
           \<and> r \<in> set rs
           \<and> title r = Some ''Buy milk''
           \<and> description r = prepareValue (example_body ''description'')
           \<and> task_id r \<notin> task_id ` set (rows example_table)
           \<and> set (rows example_table) \<subseteq> set rs)"
proof -
  have h1: "db (example_server (Some example_table)) = Some example_table"
    by (simp add: example_server_def)
  have h2: "fault (at_time 3000) = None" and h3: "fault (at_time 4000) = None"
    by (simp_all add: at_time_def)
  have h4: "example_body ''title'' = Some (JStr ''Buy milk'')"
    by (simp add: example_body_def)
  have h5: "length ''Buy milk'' \<le> 255" and h6: "CHR 0x00 \<notin> set ''Buy milk''"
    by simp_all
  have h7: "validDescription (example_body ''description'')"
    by (simp add: example_body_def validDescription_def)
  have h8: "seq_ahead (db (example_server (Some example_table)))"
    by (simp add: example_server_def example_table_def seq_ahead_def)
  note c = createTask_then_listTasks [OF h1 h2 h3 h4 h5 h6 h7 h8]
  show ?thesis
    by (intro conjI h1 h2 h3 h4 h5 h6 h7 h8 c)
qed

subsection \<open>C2: the list is complete and newest first\<close>

text \<open>
  C2. On a store whose table exists and whose statement meets no outside failure,
  \<open>listTasks\<close> answers 200 with all rows of the table, each as often as it is stored (no
  pagination), sorted by \<open>created_at\<close> descending: a task with a smaller \<open>created_at\<close>
  than another stands after it in the list.
\<close>

theorem listTasks_newest_first:
  assumes "db s = Some tab" and "fault qe = None"
  shows "\<exists>rs. fst (listTasks qe s) = \<lparr> status = 200, body = JsonTasks rs \<rparr>
            \<and> mset rs = mset (rows tab)
            \<and> sorted (map desc_key rs)
            \<and> (\<forall>i j t1 t2. i < length rs \<and> j < length rs
                   \<and> created_at (rs ! i) = Some t1 \<and> created_at (rs ! j) = Some t2 \<and> t1 < t2
                 \<longrightarrow> j < i)"
proof -
  let ?rs = "order_by_created_at_desc (rows tab)"
  have "fst (listTasks qe s) = \<lparr> status = 200, body = JsonTasks ?rs \<rparr>"
    using assms by (simp add: listTasks_response run_statement_select)
  moreover have "mset ?rs = mset (rows tab)" by (rule mset_order_by)
  moreover have srt: "sorted (map desc_key ?rs)" by (rule sorted_order_by)
  moreover have "\<forall>i j t1 t2. i < length ?rs \<and> j < length ?rs
                   \<and> created_at (?rs ! i) = Some t1 \<and> created_at (?rs ! j) = Some t2 \<and> t1 < t2
                 \<longrightarrow> j < i"
    using newer_first [OF srt] by blast
  ultimately show ?thesis by blast
qed

theorem listTasks_newest_first_witness:
  "db (example_server (Some example_table)) = Some example_table
   \<and> fault (at_time 5000) = None
   \<and> (\<exists>rs. fst (listTasks (at_time 5000) (example_server (Some example_table)))
               = \<lparr> status = 200, body = JsonTasks rs \<rparr>
            \<and> mset rs = mset (rows example_table)
            \<and> sorted (map desc_key rs)
            \<and> (\<forall>i j t1 t2. i < length rs \<and> j < length rs
                   \<and> created_at (rs ! i) = Some t1 \<and> created_at (rs ! j) = Some t2 \<and> t1 < t2
                 \<longrightarrow> j < i))"
proof -
  have h1: "db (example_server (Some example_table)) = Some example_table"
    by (simp add: example_server_def)
  have h2: "fault (at_time 5000) = None"
    by (simp add: at_time_def)
  note c = listTasks_newest_first [OF h1 h2]
  show ?thesis
    by (intro conjI h1 h2 c)
qed

text \<open>Two tasks created one after the other, A at 1000 and B at 2000, are listed B first.\<close>

lemma listTasks_example:
  "fst (listTasks (at_time 5000) (example_server (Some example_table))) =
     \<lparr> status = 200,
       body = JsonTasks
         [\<lparr> task_id = 2, title = Some ''B'', description = Some ''second'',
            completed = Some False, created_at = Some 2000 \<rparr>,
          \<lparr> task_id = 1, title = Some ''A'', description = None,
            completed = Some False, created_at = Some 1000 \<rparr>] \<rparr>"
  by (simp add: listTasks_response example_server_def at_time_def run_statement_select
      example_table_def order_by_created_at_desc_def desc_key_def)

text \<open>
  Creation order and list order: a task created while the store's clock is past the
  \<open>created_at\<close> of every stored task is the first of the next list.
\<close>

lemma listTasks_after_createTask:
  assumes tab: "db s = Some tab" and ok1: "fault qe1 = None" and ok2: "fault qe2 = None"
    and t: "b ''title'' = Some (JStr t)" and len: "length t \<le> 255" and nul: "CHR 0x00 \<notin> set t"
    and d: "\<not> has_nul (prepareValue (b ''description''))"
    and inv: "seq_ahead (db s)"
    and clock: "\<forall>p \<in> set (rows tab). \<exists>c. created_at p = Some c \<and> c < now qe1"
  shows "fst (listTasks qe2 (snd (createTask qe1 b s))) =
           \<lparr> status = 200,
             body = JsonTasks
               (\<lparr> task_id = id_seq tab, title = Some t,
                   description = prepareValue (b ''description''),
                   completed = Some False, created_at = Some (now qe1) \<rparr>
                # order_by_created_at_desc (rows tab)) \<rparr>"
  using clock
  by (simp add: createTask_stores [OF tab ok1 t len nul d inv] listTasks_response
      run_statement_select [OF ok2] order_by_newest_appended)

subsection \<open>C3: one row per successful create\<close>

text \<open>
  C3. For a title that is a string of at most 255 characters without the character of
  code zero, on a store whose table exists, whose sequence is ahead of the stored ids
  and whose statement meets no outside failure: \<open>createTask\<close> appends exactly one row to
  the table, with the next value of the sequence as id, the store's clock as
  \<open>created_at\<close> and \<open>completed\<close> false, and answers 201 with that row.
\<close>

theorem createTask_inserts_one_row:
  assumes "db s = Some tab" and "fault qe = None"
    and "b ''title'' = Some (JStr t)" and "length t \<le> 255" and "CHR 0x00 \<notin> set t"
    and "\<not> has_nul (prepareValue (b ''description''))"
    and "seq_ahead (db s)"
  shows "\<exists>r. fst (createTask qe b s) = \<lparr> status = 201, body = JsonTask r \<rparr>
           \<and> db (snd (createTask qe b s)) = Some \<lparr> rows = rows tab @ [r], id_seq = id_seq tab + 1 \<rparr>
           \<and> task_id r = id_seq tab
           \<and> title r = Some t
           \<and> description r = prepareValue (b ''description'')
           \<and> completed r = Some False
           \<and> created_at r = Some (now qe)"
  by (simp add: createTask_stores [OF assms])

theorem createTask_inserts_one_row_witness:
  "db (example_server (Some \<lparr> rows = [], id_seq = 1 \<rparr>)) = Some \<lparr> rows = [], id_seq = 1 \<rparr>
   \<and> fault (at_time 7000) = None
   \<and> example_body ''title'' = Some (JStr ''Buy milk'')
   \<and> length ''Buy milk'' \<le> 255 \<and> CHR 0x00 \<notin> set ''Buy milk''
   \<and> \<not> has_nul (prepareValue (example_body ''description''))
   \<and> seq_ahead (db (example_server (Some \<lparr> rows = [], id_seq = 1 \<rparr>)))
   \<and> (\<exists>r. fst (createTask (at_time 7000) example_body (example_server (Some \<lparr> rows = [], id_seq = 1 \<rparr>)))
              = \<lparr> status = 201, body = JsonTask r \<rparr>
           \<and> db (snd (createTask (at_time 7000) example_body
                        (example_server (Some \<lparr> rows = [], id_seq = 1 \<rparr>))))
              = Some \<lparr> rows = rows \<lparr> rows = [], id_seq = 1 \<rparr> @ [r],
                       id_seq = id_seq \<lparr> rows = [], id_seq = 1 \<rparr> + 1 \<rparr>
           \<and> task_id r = id_seq \<lparr> rows = [], id_seq = 1 \<rparr>
           \<and> title r = Some ''Buy milk''
           \<and> description r = prepareValue (example_body ''description'')
           \<and> completed r = Some False
           \<and> created_at r = Some (now (at_time 7000)))"
proof -
  have h1: "db (example_server (Some \<lparr> rows = [], id_seq = 1 \<rparr>)) = Some \<lparr> rows = [], id_seq = 1 \<rparr>"
    by (simp add: example_server_def)
  have h2: "fault (at_time 7000) = None"
    by (simp add: at_time_def)
  have h3: "example_body ''title'' = Some (JStr ''Buy milk'')"
    by (simp add: example_body_def)
  have h4: "length ''Buy milk'' \<le> 255" and h5: "CHR 0x00 \<notin> set ''Buy milk''"
    by simp_all
  have h6: "\<not> has_nul (prepareValue (example_body ''description''))"
    by (simp add: example_body_def has_nul_def)
  have h7: "seq_ahead (db (example_server (Some \<lparr> rows = [], id_seq = 1 \<rparr>)))"
    by (simp add: example_server_def seq_ahead_def)
  note c = createTask_inserts_one_row [OF h1 h2 h3 h4 h5 h6 h7]
  show ?thesis
    by (intro conjI h1 h2 h3 h4 h5 h6 h7 c)
qed

subsection \<open>C4: the TLS posture of the pool\<close>

text \<open>
  C4, as the spec states it, fails: with \<^verbatim>\<open>NODE_ENV\<close> set to \<^verbatim>\<open>production\<close> the pool is
  configured with \<^verbatim>\<open>rejectUnauthorized: false\<close>, so the certificate of the store is not
  validated.
\<close>

theorem poolConfig_production_counterexample:
  "\<not> certificateValidationRequired (ssl (poolConfig [''NODE_ENV'' \<mapsto> ''production'']))"
  by (simp add: poolConfig_def)

text \<open>
  C4, amended. The environment variable \<^verbatim>\<open>NODE_ENV\<close> decides whether the connection to
  the store uses TLS: it does exactly when the variable is \<^verbatim>\<open>production\<close>. Validation
  of the store's certificate is required in neither posture.
\<close>

theorem poolConfig_ssl_posture:
  "usesTls (ssl (poolConfig penv)) = (penv ''NODE_ENV'' = Some ''production'')
   \<and> \<not> certificateValidationRequired (ssl (poolConfig penv))"
  by (simp add: poolConfig_def)

theorem poolConfig_ssl_posture_witness:
  "usesTls (ssl (poolConfig [''NODE_ENV'' \<mapsto> ''production'']))
   \<and> \<not> usesTls (ssl (poolConfig [''NODE_ENV'' \<mapsto> ''development'']))
   \<and> \<not> certificateValidationRequired (ssl (poolConfig [''NODE_ENV'' \<mapsto> ''development'']))"
  using poolConfig_ssl_posture [of "[''NODE_ENV'' \<mapsto> ''production'']"]
    poolConfig_ssl_posture [of "[''NODE_ENV'' \<mapsto> ''development'']"]
  by simp

subsection \<open>C5: a failed statement is answered with 500 and its message\<close>

text \<open>
  C5. When the statement of \<open>listTasks\<close> or of \<open>createTask\<close> fails in the store with
  message \<open>m\<close>, the response is 500 with the body \<^verbatim>\<open>{"error": m}\<close>, and the handler has
  called \<^verbatim>\<open>pool.query\<close> exactly once: there is no second attempt.
\<close>

theorem store_failure_gives_500:
  "(fst (run_statement qe selectTasksText [] (db s)) = Inl m \<longrightarrow>
      fst (listTasks qe s) = \<lparr> status = 500, body = JsonError m \<rparr>
      \<and> queries (snd (listTasks qe s)) = queries s @ [(selectTasksText, [])])
   \<and> (fst (run_statement qe insertTaskText
              [prepareValue (b ''title''), prepareValue (b ''description'')] (db s)) = Inl m' \<longrightarrow>
      fst (createTask qe b s) = \<lparr> status = 500, body = JsonError m' \<rparr>
      \<and> queries (snd (createTask qe b s)) =
          queries s @ [(insertTaskText, [b ''title'', b ''description''])])"
  by (simp add: listTasks_response createTask_response listTasks_queries createTask_queries)

theorem store_failure_gives_500_witness:
  "fst (run_statement (at_time 0) selectTasksText [] (db (example_server None)))
     = Inl ''relation \"tasks\" does not exist''
   \<and> fst (listTasks (at_time 0) (example_server None))
     = \<lparr> status = 500, body = JsonError ''relation \"tasks\" does not exist'' \<rparr>
   \<and> queries (snd (listTasks (at_time 0) (example_server None)))
     = queries (example_server None) @ [(selectTasksText, [])]
   \<and> fst (run_statement (at_time 0) insertTaskText
            [prepareValue (example_body ''title''), prepareValue (example_body ''description'')]
            (db (example_server None)))
     = Inl ''relation \"tasks\" does not exist''
   \<and> fst (createTask (at_time 0) example_body (example_server None))
     = \<lparr> status = 500, body = JsonError ''relation \"tasks\" does not exist'' \<rparr>
   \<and> queries (snd (createTask (at_time 0) example_body (example_server None)))
     = queries (example_server None) @ [(insertTaskText, [example_body ''title'', example_body ''description''])]"
proof -
  have h1: "fst (run_statement (at_time 0) selectTasksText [] (db (example_server None)))
              = Inl ''relation \"tasks\" does not exist''"
    by (simp add: run_statement_def at_time_def example_server_def statement_texts_distinct)
  have h2: "fst (run_statement (at_time 0) insertTaskText
                  [prepareValue (example_body ''title''), prepareValue (example_body ''description'')]
                  (db (example_server None)))
              = Inl ''relation \"tasks\" does not exist''"
    by (simp add: run_statement_def at_time_def example_server_def statement_texts_distinct)
  note c = store_failure_gives_500 [of "at_time 0" "example_server None"
      "''relation \"tasks\" does not exist''" example_body "''relation \"tasks\" does not exist''"]
  from c h1 h2 show ?thesis by blast
qed

subsection \<open>C6: a failed initializer does not stop the server\<close>

text \<open>
  C6. When the create-table statement fails at process start with message \<open>m\<close>, that
  failure never ends the process: whatever else happens, the process does not end on
  an unhandled rejection. When \<^verbatim>\<open>app.listen\<close> is not itself refused, the process is
  running afterwards with the listener started on the configured port, the store is as
  it was, the one statement was sent once, and the console holds the listener's line
  and the error line of the initializer (in whichever order) and nothing else.
\<close>

theorem initializer_failure_swallowed:
  assumes "fst (run_statement qe createTablesQuery [] st) = Inl m"
  shows "(\<forall>e. start penv h qe st \<noteq> Terminated (UnhandledRejection e))
       \<and> (listen_error h (PORT penv) = None \<longrightarrow>
            (\<exists>s. start penv h qe st = Running s
                \<and> listening s = Some (PORT penv)
                \<and> pool s = poolConfig penv
                \<and> db s = st
                \<and> queries s = [(createTablesQuery, [])]
                \<and> set (console s) =
                    {ConsoleError ''Database setup error:'' m,
                     ConsoleLog (''Backend server is running on port '' @ port_text (PORT penv))}))"
proof -
  have f: "fault qe = Some m"
    using assms by (rule run_statement_create_fails)
  have handled: "initializeDatabase qe s =
                   (Fulfilled,
                    console_error ''Database setup error:'' m
                      (s \<lparr> db := db s, queries := queries s @ [(createTablesQuery, [])] \<rparr>))" for s
    by (simp add: initializeDatabase_def ensureSchema_def pool_query_def run_statement_fault [OF f])
  have no_rejection: "start penv h qe st \<noteq> Terminated (UnhandledRejection e)" for e
  proof (cases "listen_error h (PORT penv)")
    case None
    then show ?thesis
      by (simp add: start_def listen_def handled)
  next
    case (Some e')
    then show ?thesis by (simp add: start_def listen_def)
  qed
  have running: "\<exists>s. start penv h qe st = Running s
                \<and> listening s = Some (PORT penv)
                \<and> pool s = poolConfig penv
                \<and> db s = st
                \<and> queries s = [(createTablesQuery, [])]
                \<and> set (console s) =
                    {ConsoleError ''Database setup error:'' m,
                     ConsoleLog (''Backend server is running on port '' @ port_text (PORT penv))}"
    if "listen_error h (PORT penv) = None"
    using that
    by (auto simp: start_def listen_def handled console_error_def console_log_def)
  from no_rejection running show ?thesis by blast
qed

theorem initializer_failure_swallowed_witness:
  "fst (run_statement (failing ''connect ECONNREFUSED'') createTablesQuery [] None)
     = Inl ''connect ECONNREFUSED''
   \<and> listen_error open_host (PORT Map.empty) = None
   \<and> (\<forall>e. start Map.empty open_host (failing ''connect ECONNREFUSED'') None
            \<noteq> Terminated (UnhandledRejection e))
   \<and> (\<exists>s. start Map.empty open_host (failing ''connect ECONNREFUSED'') None = Running s
          \<and> listening s = Some (PORT Map.empty)
          \<and> pool s = poolConfig Map.empty
          \<and> db s = None
          \<and> queries s = [(createTablesQuery, [])]
          \<and> set (console s) =
              {ConsoleError ''Database setup error:'' ''connect ECONNREFUSED'',
               ConsoleLog (''Backend server is running on port '' @ port_text (PORT Map.empty))})"
proof -
  have h1: "fst (run_statement (failing ''connect ECONNREFUSED'') createTablesQuery [] None)
             = Inl ''connect ECONNREFUSED''"
    by (simp add: run_statement_def failing_def)
  have h2: "listen_error open_host (PORT Map.empty) = None"
    by (simp add: open_host_def)
  note c = initializer_failure_swallowed [OF h1, of Map.empty open_host]
  from c h1 h2 show ?thesis by blast
qed

text \<open>With no \<^verbatim>\<open>PORT\<close> in the environment the listener is on port 5000.\<close>

lemma default_port:
  "PORT Map.empty = PortDefault 5000"
  "decimal 5000 = ''5000''"
  "port_text (PORT Map.empty) = ''5000''"
  by (simp_all add: PORT_def decimal.simps [of 5000] decimal.simps [of 500]
      decimal.simps [of 50] decimal.simps [of 5])

text \<open>
  On the same input the listener's line is printed first, and the error line of the
  initializer after it.
\<close>

lemma start_example:
  "start Map.empty open_host (failing ''connect ECONNREFUSED'') None =
     Running \<lparr> pool = poolConfig Map.empty, db = None,
               queries = [(createTablesQuery, [])],
               console = [ConsoleLog ''Backend server is running on port 5000'',
                          ConsoleError ''Database setup error:'' ''connect ECONNREFUSED''],
               listening = Some (PortDefault 5000) \<rparr>"
  by (simp add: start_def listen_def initializeDatabase_def ensureSchema_def pool_query_def
      run_statement_def failing_def open_host_def console_error_def console_log_def default_port)

text \<open>
  A refused port ends the process whatever the initializer does, and before its
  statement has run.
\<close>

lemma start_listen_refused:
  "listen_error h (PORT penv) = Some e \<Longrightarrow> start penv h qe st = Terminated (UncaughtListenError e)"
  by (simp add: start_def listen_def)

subsection \<open>C7: the invariant of persisted tasks\<close>

text \<open>
  C7, as the spec states it, fails: the store accepts the empty string as a title
  (\<^verbatim>\<open>NOT NULL\<close> does not exclude it, and the server checks nothing), so a task with an
  empty title is persisted.
\<close>

theorem createTask_empty_title_counterexample:
  "db (snd (createTask \<lparr> now = 1000, fault = None \<rparr> [''title'' \<mapsto> JStr '''']
             \<lparr> pool = poolConfig Map.empty, db = Some \<lparr> rows = [], id_seq = 1 \<rparr>,
               queries = [], console = [], listening = None \<rparr>))
   = Some \<lparr> rows = [\<lparr> task_id = 1, title = Some '''', description = None,
                       completed = Some False, created_at = Some 1000 \<rparr>],
            id_seq = 2 \<rparr>"
proof -
  have "seq_ahead (Some \<lparr> rows = [], id_seq = 1 \<rparr>)" by (simp add: seq_ahead_def)
  then show ?thesis
    by (subst createTask_stores [where tab = "\<lparr> rows = [], id_seq = 1 \<rparr>" and t = "''''"])
       (simp_all add: has_nul_def)
qed

text \<open>
  C7, amended. Every persisted task has a unique id and a title that is not null and
  at most 255 characters long (it may be empty): no operation of the server breaks
  this. \<open>createTask\<close> with a null or absent title is always answered 500, and persists
  nothing; when the statement gets as far as the constraints, the message is the one
  of the \<^verbatim>\<open>NOT NULL\<close> constraint.
\<close>

theorem task_invariant_preserved:
  assumes "task_invariant (db s)"
  shows "task_invariant (db (snd (createTask qe b s)))
       \<and> task_invariant (db (snd (listTasks qe s)))
       \<and> task_invariant (db (snd (initializeDatabase qe s)))
       \<and> (prepareValue (b ''title'') = None \<longrightarrow>
            (\<exists>m. fst (createTask qe b s) = \<lparr> status = 500, body = JsonError m \<rparr>)
            \<and> map_option rows (db (snd (createTask qe b s))) = map_option rows (db s))
       \<and> (prepareValue (b ''title'') = None \<and> fault qe = None \<and> db s = Some tab
            \<and> \<not> has_nul (prepareValue (b ''description'')) \<longrightarrow>
            fst (createTask qe b s) =
              \<lparr> status = 500,
                body = JsonError
                  ''null value in column \"title\" of relation \"tasks\" violates not-null constraint'' \<rparr>)"
proof -
  have kept: "task_invariant (db (snd (createTask qe b s)))"
    "task_invariant (db (snd (listTasks qe s)))"
    "task_invariant (db (snd (initializeDatabase qe s)))"
    using assms
    by (simp_all add: createTask_db listTasks_db initializeDatabase_db task_invariant_run_statement)
  have rejected: "prepareValue (b ''title'') = None \<longrightarrow>
            (\<exists>m. fst (createTask qe b s) = \<lparr> status = 500, body = JsonError m \<rparr>)
            \<and> map_option rows (db (snd (createTask qe b s))) = map_option rows (db s)"
    using run_statement_insert_null [of qe "prepareValue (b ''description'')" "db s"]
    by (auto simp: createTask_db createTask_response)
  have by_constraint: "prepareValue (b ''title'') = None \<and> fault qe = None \<and> db s = Some tab
            \<and> \<not> has_nul (prepareValue (b ''description'')) \<longrightarrow>
            fst (createTask qe b s) =
              \<lparr> status = 500,
                body = JsonError
                  ''null value in column \"title\" of relation \"tasks\" violates not-null constraint'' \<rparr>"
    by (simp add: createTask_response run_statement_insert insert_task_null_title)
  from kept rejected by_constraint show ?thesis by blast
qed

theorem task_invariant_preserved_witness:
  "task_invariant (db (example_server (Some example_table)))
   \<and> prepareValue (untitled_body ''title'') = None
   \<and> fault (at_time 9000) = None
   \<and> db (example_server (Some example_table)) = Some example_table
   \<and> \<not> has_nul (prepareValue (untitled_body ''description''))
   \<and> task_invariant (db (snd (createTask (at_time 9000) untitled_body (example_server (Some example_table)))))
   \<and> task_invariant (db (snd (listTasks (at_time 9000) (example_server (Some example_table)))))
   \<and> task_invariant (db (snd (initializeDatabase (at_time 9000) (example_server (Some example_table)))))
   \<and> map_option rows (db (snd (createTask (at_time 9000) untitled_body (example_server (Some example_table)))))
       = map_option rows (db (example_server (Some example_table)))
   \<and> fst (createTask (at_time 9000) untitled_body (example_server (Some example_table))) =
       \<lparr> status = 500,
         body = JsonError
           ''null value in column \"title\" of relation \"tasks\" violates not-null constraint'' \<rparr>"
proof -
  have h1: "task_invariant (db (example_server (Some example_table)))"
    by (simp add: example_server_def example_table_def task_invariant_def)
  have h2: "prepareValue (untitled_body ''title'') = None"
    by (simp add: untitled_body_def)
  have h3: "fault (at_time 9000) = None"
    by (simp add: at_time_def)
  have h4: "db (example_server (Some example_table)) = Some example_table"
    by (simp add: example_server_def)
  have h5: "\<not> has_nul (prepareValue (untitled_body ''description''))"
    by (simp add: untitled_body_def has_nul_def)
  note c = task_invariant_preserved [OF h1, of "at_time 9000" untitled_body example_table]
  from c h1 h2 h3 h4 h5 show ?thesis by blast
qed

subsection \<open>C8: ensuring the schema twice\<close>

text \<open>
  C8. Whatever the store holds, running the create-table statement twice in a row,
  with no outside failure, succeeds both times; the second run changes nothing, and a
  table that existed before the first run is unchanged by it, rows and sequence.
\<close>

theorem ensureSchema_idempotent:
  assumes "fault qe1 = None" and "fault qe2 = None"
  shows "fst (ensureSchema qe1 s) = Fulfilled
       \<and> fst (ensureSchema qe2 (snd (ensureSchema qe1 s))) = Fulfilled
       \<and> db (snd (ensureSchema qe2 (snd (ensureSchema qe1 s)))) = db (snd (ensureSchema qe1 s))
       \<and> (\<forall>tab. db s = Some tab \<longrightarrow> db (snd (ensureSchema qe1 s)) = Some tab)"
  using assms
  by (simp add: ensureSchema_def pool_query_def run_statement_create split: option.splits)

theorem ensureSchema_idempotent_witness:
  "fault (at_time 10) = None \<and> fault (at_time 20) = None
   \<and> db (example_server (Some example_table)) = Some example_table
   \<and> fst (ensureSchema (at_time 10) (example_server (Some example_table))) = Fulfilled
   \<and> fst (ensureSchema (at_time 20) (snd (ensureSchema (at_time 10) (example_server (Some example_table)))))
       = Fulfilled
   \<and> db (snd (ensureSchema (at_time 20) (snd (ensureSchema (at_time 10) (example_server (Some example_table))))))
       = db (snd (ensureSchema (at_time 10) (example_server (Some example_table))))
   \<and> db (snd (ensureSchema (at_time 10) (example_server (Some example_table)))) = Some example_table"
proof -
  have h1: "fault (at_time 10) = None" and h2: "fault (at_time 20) = None"
    by (simp_all add: at_time_def)
  have h3: "db (example_server (Some example_table)) = Some example_table"
    by (simp add: example_server_def)
  note c = ensureSchema_idempotent [OF h1 h2, of "example_server (Some example_table)"]
  from c h1 h2 h3 show ?thesis by blast
qed

subsection \<open>C9: only title and description are read\<close>

text \<open>
  C9. Two request bodies that agree on \<^verbatim>\<open>title\<close> and on \<^verbatim>\<open>description\<close> make
  \<open>createTask\<close> do the same on the same store at the same time: the same response, the
  same row, the same state. Any other field of the body has no effect.
\<close>

theorem createTask_reads_title_description_only:
  assumes "b1 ''title'' = b2 ''title''" and "b1 ''description'' = b2 ''description''"
  shows "createTask qe b1 s = createTask qe b2 s"
  using assms by (simp add: createTask_def)

theorem createTask_reads_title_description_only_witness:
  "crowded_body ''title'' = example_body ''title''
   \<and> crowded_body ''description'' = example_body ''description''
   \<and> createTask (at_time 3000) crowded_body (example_server (Some example_table))
       = createTask (at_time 3000) example_body (example_server (Some example_table))"
proof -
  have h1: "crowded_body ''title'' = example_body ''title''"
    and h2: "crowded_body ''description'' = example_body ''description''"
    by (simp_all add: crowded_body_def example_body_def)
  note c = createTask_reads_title_description_only [OF h1 h2]
  show ?thesis
    by (intro conjI h1 h2 c)
qed

subsection \<open>C10: the statement text is constant\<close>

text \<open>
  C10. \<open>listTasks\<close> and \<open>createTask\<close> each pass one fixed text to \<^verbatim>\<open>pool.query\<close>, the
  same for every request and every state; the title and the description of the request
  appear only among the bound values.
\<close>

theorem statement_text_constant:
  "map fst (queries (snd (listTasks qe s))) =
     map fst (queries s) @ [''SELECT * FROM tasks ORDER BY created_at DESC'']
   \<and> queries (snd (createTask qe b s)) =
       queries s @ [(''INSERT INTO tasks (title, description) VALUES ($1, $2) RETURNING *'',
                     [b ''title'', b ''description''])]"
  by (simp add: listTasks_queries createTask_queries selectTasksText_def insertTaskText_def)

theorem statement_text_constant_witness:
  "map fst (queries (snd (listTasks (at_time 1) (example_server None)))) =
     map fst (queries (example_server None)) @ [''SELECT * FROM tasks ORDER BY created_at DESC'']
   \<and> queries (snd (createTask (at_time 1) injection_body (example_server None))) =
       queries (example_server None) @
         [(''INSERT INTO tasks (title, description) VALUES ($1, $2) RETURNING *'',
           [injection_body ''title'', injection_body ''description''])]"
  by (rule statement_text_constant)

end
